theory Spec2Isabelle
  imports Complex_Main "HOL-Library.Multiset" "HOL-Library.Char_ord" "HOL-Library.List_Lexorder"
begin

section \<open>Python values, errors and the recommender object\<close>

text \<open>
  The configuration attributes of \<open>ExampleRecommender\<close> are ordinary Python attributes: the
  constructor stores whatever it is given. \<open>pyval\<close> is the part of Python's value space the
  checks of \<open>fit\<close> and \<open>predict\<close> distinguish. \<open>bool\<close> is a subclass of \<open>int\<close>, so it
  is an instance of \<open>numbers.Integral\<close>.
\<close>

datatype pyval = PyInt int | PyBool bool | PyFloat real | PyStr string | PyNone

datatype error =
    ValueError | TypeError | NameError | UnboundLocalError | AttributeError | IndexError | OSError

text \<open>\<open>isinstance(v, numbers.Integral)\<close>, with the integer the value stands for.\<close>

fun as_integral :: "pyval \<Rightarrow> int option" where
  "as_integral (PyInt i) = Some i"
| "as_integral (PyBool b) = Some (if b then 1 else 0)"
| "as_integral (PyFloat r) = None"
| "as_integral (PyStr s) = None"
| "as_integral PyNone = None"

text \<open>
  The object: the two configuration attributes set by \<open>__init__\<close>, and the two fitted
  attributes \<open>file_names_\<close> and \<open>similarity_matrix_\<close> (written with a prime here, since
  an Isabelle name cannot end with an underscore), which do not exist (\<open>None\<close> here) until
  \<open>fit\<close> assigns them. The type of the scores is a parameter: \<open>fit\<close> stores floats,
  \<open>predict\<close> only compares them.
\<close>

record 's recommender =
  n_examples :: pyval
  tokenizer :: pyval
  file_names' :: "string list option"
  similarity_matrix' :: "'s list list option"

text \<open>\<open>__init__\<close>, lines 52 to 54: it stores the two keyword arguments.\<close>

definition init :: "pyval \<Rightarrow> pyval \<Rightarrow> 's recommender" where
  "init n tok = \<lparr>n_examples = n, tokenizer = tok, file_names' = None, similarity_matrix' = None\<rparr>"

section \<open>predict\<close>

text \<open>\<open>list.index(x)\<close>: the first position of \<open>x\<close>, \<open>ValueError\<close> when it is absent.\<close>

fun list_index :: "'a list \<Rightarrow> 'a \<Rightarrow> nat option" where
  "list_index [] x = None"
| "list_index (y # ys) x = (if y = x then Some 0 else map_option Suc (list_index ys x))"

text \<open>
  \<open>sorted(xs, key=k, reverse=True)\<close>. CPython sorts stably; with \<open>reverse=True\<close> it reverses
  the list, sorts it stably in ascending order and reverses the result, which keeps the
  original order of elements with equal keys. \<open>sort_key\<close> is a stable insertion sort.
\<close>

definition py_sorted_reverse :: "('a \<Rightarrow> 'k::linorder) \<Rightarrow> 'a list \<Rightarrow> 'a list" where
  "py_sorted_reverse k xs = rev (sort_key k (rev xs))"

text \<open>
  \<open>xs[i:j]\<close> with step 1: a negative bound counts from the end, and both bounds are clamped
  to the list.
\<close>

definition py_slice :: "'a list \<Rightarrow> int \<Rightarrow> int \<Rightarrow> 'a list" where
  "py_slice xs i j =
     (let L = int (length xs);
          clamp = (\<lambda>k. if k < 0 then max 0 (k + L) else min k L);
          a = nat (clamp i);
          b = nat (clamp j)
      in take (b - a) (drop a xs))"

text \<open>\<open>xs[i]\<close> for a non-negative index: \<open>IndexError\<close> out of range.\<close>

definition py_getitem :: "'a list \<Rightarrow> nat \<Rightarrow> error + 'a" where
  "py_getitem xs i = (if i < length xs then Inr (xs ! i) else Inl IndexError)"

text \<open>A list comprehension whose element expression may raise: the first error wins.\<close>

fun collect :: "(error + 'a) list \<Rightarrow> error + 'a list" where
  "collect [] = Inr []"
| "collect (Inl e # rs) = Inl e"
| "collect (Inr x # rs) = (case collect rs of Inl e \<Rightarrow> Inl e | Inr xs \<Rightarrow> Inr (x # xs))"

text \<open>
  Lines 263 to 265 of \<open>predict\<close>: the position of the query, its row of the similarity
  matrix paired with positions, sorted by score, highest first.
\<close>

definition sorted_items :: "('s::linorder) recommender \<Rightarrow> string \<Rightarrow> error + (nat \<times> 's) list" where
  "sorted_items self file_name =
     (case file_names' self of
        None \<Rightarrow> Inl AttributeError
      | Some names \<Rightarrow>
          (case list_index names file_name of
             None \<Rightarrow> Inl ValueError
           | Some item_id \<Rightarrow>
               (case similarity_matrix' self of
                  None \<Rightarrow> Inl AttributeError
                | Some M \<Rightarrow>
                    (case py_getitem M item_id of
                       Inl e \<Rightarrow> Inl e
                     | Inr row \<Rightarrow>
                         (let similar_items = enumerate 0 row
                          in Inr (py_sorted_reverse snd similar_items))))))"

text \<open>
  Lines 268 to 270: the slice \<open>[1 : n_examples + 1]\<close> of the sorted pairs, then the names at
  those positions. \<open>n_examples + 1\<close> is a slice bound, so a value that is not an integer
  raises \<open>TypeError\<close>.
\<close>

definition predict :: "('s::linorder) recommender \<Rightarrow> string \<Rightarrow> error + string list" where
  "predict self file_name =
     (case sorted_items self file_name of
        Inl e \<Rightarrow> Inl e
      | Inr items \<Rightarrow>
          (case as_integral (n_examples self) of
             None \<Rightarrow> Inl TypeError
           | Some n \<Rightarrow>
               (let top_k_items = map fst (py_slice items 1 (n + 1))
                in collect (map (py_getitem (the (file_names' self))) top_k_items))))"

text \<open>
  A fitted state as \<open>fit\<close> commits it: the similarity matrix is square, with one row and one
  column per fitted file name.
\<close>

definition fitted :: "'s recommender \<Rightarrow> string list \<Rightarrow> 's list list \<Rightarrow> bool" where
  "fitted self names M \<longleftrightarrow>
     file_names' self = Some names \<and> similarity_matrix' self = Some M \<and>
     length M = length names \<and> list_all (\<lambda>row. length row = length names) M"

section \<open>Tokenizer and frequency counter\<close>

text \<open>
  Texts are ASCII strings: \<open>\w\<close> matches letters, digits and the underscore, and
  \<open>str.lower\<close> maps \<open>A\<close> to \<open>Z\<close> onto \<open>a\<close> to \<open>z\<close>. (Python's \<open>\w\<close> and
  \<open>str.lower\<close> also cover the letters and digits beyond ASCII, which are outside this
  model.)
\<close>

definition is_word_char :: "char \<Rightarrow> bool" where
  "is_word_char c =
     (let n = (of_char c :: nat)
      in (48 \<le> n \<and> n \<le> 57) \<or> (65 \<le> n \<and> n \<le> 90) \<or> n = 95 \<or> (97 \<le> n \<and> n \<le> 122))"

definition lower_char :: "char \<Rightarrow> char" where
  "lower_char c =
     (let n = (of_char c :: nat) in if 65 \<le> n \<and> n \<le> 90 then char_of (n + 32) else c)"

definition lower :: "string \<Rightarrow> string" where
  "lower tok = map lower_char tok"

text \<open>
  \<open>re.findall(r"\w+", doc)\<close>: the maximal runs of word characters, left to right. The first
  argument is the run being read.
\<close>

fun findall_word :: "string \<Rightarrow> string \<Rightarrow> string list" where
  "findall_word cur [] = (if cur = [] then [] else [cur])"
| "findall_word cur (c # cs) =
     (if is_word_char c then findall_word (cur @ [c]) cs
      else if cur = [] then findall_word [] cs
      else cur # findall_word [] cs)"

text \<open>
  A frequency mapping is a Python dict: an association list with distinct keys, in insertion
  order. \<open>freq[tok] += 1\<close> on a \<open>defaultdict(int)\<close> inserts a missing key with \<open>0 + 1\<close>.
\<close>

type_synonym 'k freqs = "('k \<times> int) list"

definition freq_incr :: "'k freqs \<Rightarrow> 'k \<Rightarrow> 'k freqs" where
  "freq_incr freq tok =
     (case map_of freq tok of
        None \<Rightarrow> freq @ [(tok, 0 + 1)]
      | Some c \<Rightarrow> map (\<lambda>(k, v). if k = tok then (k, v + 1) else (k, v)) freq)"

definition dict_freqs :: "'k list \<Rightarrow> 'k freqs" where
  "dict_freqs doc = fold (\<lambda>tok freq. freq_incr freq tok) doc []"

text \<open>
  The names bound in the module's global namespace when a method body runs: the imports of
  lines 10 to 26, the class and the module-level function. \<open>token_freqs\<close>, \<open>dict_freqs\<close>
  and the other methods are attributes of the class \<open>ExampleRecommender\<close>, not globals, and
  Python does not search a class body from inside a method: a bare name in a method is looked
  up in the function's locals, then in the module's globals, then in the builtins (which
  have no \<open>dict_freqs\<close> either).
\<close>

definition module_globals :: "string list" where
  "module_globals =
     [''numbers'', ''re'', ''defaultdict'', ''Path'', ''np'', ''sparse'', ''norm'',
      ''_thumbnail_div'', ''THUMBNAIL_PARENT_DIV'', ''THUMBNAIL_PARENT_DIV_CLOSE'',
      ''split_code_and_text_blocks'', ''extract_intro_and_title'',
      ''ExampleRecommender'', ''_write_recommendations'']"

text \<open>
  \<open>token_freqs\<close>, lines 57 to 60. Line 59 builds the generator of lower-cased tokens (which
  runs \<open>re.findall\<close>); line 60 calls the bare name \<open>dict_freqs\<close>, which raises
  \<open>NameError\<close> unless the module binds it.
\<close>

definition token_freqs :: "string \<Rightarrow> error + string freqs" where
  "token_freqs doc =
     (let token_generator = map lower (findall_word [] doc)
      in if ''dict_freqs'' \<in> set module_globals then Inr (dict_freqs token_generator)
         else Inl NameError)"

section \<open>Sparse matrices and the vectorizer\<close>

text \<open>
  A \<open>scipy.sparse.csr_matrix\<close>: the stored values, their column indices, the row-start
  offsets and the shape.
\<close>

record 'v csr =
  data :: "'v list"
  indices :: "nat list"
  indptr :: "nat list"
  shape :: "nat \<times> nat"

text \<open>The stored entries of row \<open>i\<close>: positions \<open>indptr[i]\<close> up to \<open>indptr[i + 1]\<close>.\<close>

definition row_slice :: "'v csr \<Rightarrow> 'a list \<Rightarrow> nat \<Rightarrow> 'a list" where
  "row_slice X xs i = take (indptr X ! Suc i - indptr X ! i) (drop (indptr X ! i) xs)"

definition csr_row :: "'v csr \<Rightarrow> nat \<Rightarrow> (nat \<times> 'v) list" where
  "csr_row X i = zip (row_slice X (indices X) i) (row_slice X (data X) i)"

text \<open>
  The body of the second loop of \<open>dict_vectorizer\<close> (lines 98 to 103) for one row: the
  values of the features the row has, in the order of \<open>feature_names\<close>, with their positions.
\<close>

definition row_entries :: "'k list \<Rightarrow> ('k \<times> 'v) list \<Rightarrow> (nat \<times> 'v) list" where
  "row_entries feature_names row =
     List.map_filter (\<lambda>(j, feature_name). map_option (Pair j) (map_of row feature_name))
       (enumerate 0 feature_names)"

fun vectorize_rows ::
  "'k list \<Rightarrow> ('k \<times> 'v) list list \<Rightarrow> 'v list \<times> nat list \<times> nat list \<Rightarrow> 'v list \<times> nat list \<times> nat list"
where
  "vectorize_rows feature_names [] acc = acc"
| "vectorize_rows feature_names (row # rows) (vals, idxs, ptrs) =
     (let es = row_entries feature_names row;
          vals' = vals @ map snd es;
          idxs' = idxs @ map fst es
      in vectorize_rows feature_names rows (vals', idxs', ptrs @ [length idxs']))"

text \<open>
  \<open>dict_vectorizer\<close>, lines 88 to 107. The first loop collects the keys of all rows; line 95
  sorts the distinct keys. Line 96 then assigns \<open>data, indices, indptr = [], [], [0]\<close>: the
  name \<open>data\<close> is the function's parameter, so from here on it is the new empty list, and the
  loop of line 97, \<open>for row in data\<close>, runs over that empty list.
\<close>

definition dict_vectorizer :: "('k::linorder \<times> 'v) list list \<Rightarrow> 'v csr" where
  "dict_vectorizer data_arg =
     (let feature_names = concat (map (map fst) data_arg);
          feature_names = sorted_list_of_set (set feature_names);
          data_rebound = [];
          (vals, idxs, ptrs) = vectorize_rows feature_names data_rebound ([], [], [0])
      in \<lparr>data = vals, indices = idxs, indptr = ptrs,
          shape = (length ptrs - 1, length feature_names)\<rparr>)"

section \<open>Floating-point values\<close>

text \<open>
  The entries of the numeric matrices are IEEE floats. The model keeps the exact real value
  of a finite float (no rounding, no overflow, no underflow) and the three special values,
  with the arithmetic IEEE 754 gives them. NumPy does not raise on a division by zero: it returns an
  infinity (and warns), and \<open>0 * inf\<close> is \<open>nan\<close>. Zero has no sign here.
\<close>

datatype npfloat = Fin real | PInf | NInf | NaN

fun np_add :: "npfloat \<Rightarrow> npfloat \<Rightarrow> npfloat" where
  "np_add (Fin a) (Fin b) = Fin (a + b)"
| "np_add NaN y = NaN"
| "np_add x NaN = NaN"
| "np_add PInf NInf = NaN"
| "np_add NInf PInf = NaN"
| "np_add PInf y = PInf"
| "np_add x PInf = PInf"
| "np_add NInf y = NInf"
| "np_add x NInf = NInf"

fun np_mul :: "npfloat \<Rightarrow> npfloat \<Rightarrow> npfloat" where
  "np_mul (Fin a) (Fin b) = Fin (a * b)"
| "np_mul NaN y = NaN"
| "np_mul x NaN = NaN"
| "np_mul (Fin a) PInf = (if a = 0 then NaN else if 0 < a then PInf else NInf)"
| "np_mul (Fin a) NInf = (if a = 0 then NaN else if 0 < a then NInf else PInf)"
| "np_mul PInf (Fin b) = (if b = 0 then NaN else if 0 < b then PInf else NInf)"
| "np_mul NInf (Fin b) = (if b = 0 then NaN else if 0 < b then NInf else PInf)"
| "np_mul PInf PInf = PInf"
| "np_mul PInf NInf = NInf"
| "np_mul NInf PInf = NInf"
| "np_mul NInf NInf = PInf"

text \<open>\<open>1. / x\<close>.\<close>

fun np_recip :: "npfloat \<Rightarrow> npfloat" where
  "np_recip (Fin a) = (if a = 0 then PInf else Fin (1 / a))"
| "np_recip PInf = Fin 0"
| "np_recip NInf = Fin 0"
| "np_recip NaN = NaN"

fun np_sqrt :: "npfloat \<Rightarrow> npfloat" where
  "np_sqrt (Fin a) = (if a < 0 then NaN else Fin (sqrt a))"
| "np_sqrt PInf = PInf"
| "np_sqrt NInf = NaN"
| "np_sqrt NaN = NaN"

definition np_sum :: "npfloat list \<Rightarrow> npfloat" where
  "np_sum xs = fold (\<lambda>x s. np_add s x) xs (Fin 0)"

text \<open>The Euclidean norm of a list of stored values: \<open>sqrt(sum(abs(x) ** 2))\<close>.\<close>

definition l2_norm :: "npfloat list \<Rightarrow> npfloat" where
  "l2_norm xs = np_sqrt (np_sum (map (\<lambda>v. np_mul v v) xs))"

section \<open>TF-IDF\<close>

text \<open>
  A sparse matrix argument with its \<open>dtype\<close>: 64-bit floats or 64-bit integers. A term
  frequency matrix built from Python integers has the dtype \<open>int64\<close>. (Integers are
  unbounded here: no overflow of an \<open>int64\<close> is modelled.)
\<close>

datatype matrix = Float64 "npfloat csr" | Int64 "int csr"

text \<open>The values of an integer matrix read as floats.\<close>

definition as_float_matrix :: "int csr \<Rightarrow> npfloat csr" where
  "as_float_matrix C =
     \<lparr>data = map (\<lambda>c. Fin (real_of_int c)) (data C), indices = indices C, indptr = indptr C,
      shape = shape C\<rparr>"

definition float_values :: "matrix \<Rightarrow> npfloat csr" where
  "float_values X = (case X of Float64 A \<Rightarrow> A | Int64 A \<Rightarrow> as_float_matrix A)"

text \<open>
  The cast of a float to \<open>int64\<close>, as an assignment into an integer array or
  \<open>astype(int64)\<close> does it: the fraction is dropped (rounding toward zero). The cast of an
  infinity or of NaN gives the smallest \<open>int64\<close>.
\<close>

definition toward_zero :: "real \<Rightarrow> int" where
  "toward_zero r = (if 0 \<le> r then \<lfloor>r\<rfloor> else \<lceil>r\<rceil>)"

definition to_int64 :: "npfloat \<Rightarrow> int" where
  "to_int64 v = (case v of Fin r \<Rightarrow> toward_zero r | _ \<Rightarrow> - (2 ^ 63))"

text \<open>\<open>sparse.csr_matrix(Y, dtype=X.dtype)\<close> for a float matrix \<open>Y\<close> (line 149).\<close>

definition astype_like :: "matrix \<Rightarrow> npfloat csr \<Rightarrow> matrix" where
  "astype_like X Y =
     (case X of
        Float64 A \<Rightarrow> Float64 Y
      | Int64 A \<Rightarrow>
          Int64 \<lparr>data = map to_int64 (data Y), indices = indices Y, indptr = indptr Y,
                 shape = shape Y\<rparr>)"

text \<open>\<open>np.bincount(x, minlength=m)\<close>: how often each value below \<open>max(m, max(x) + 1)\<close> occurs.\<close>

definition bincount :: "nat list \<Rightarrow> nat \<Rightarrow> nat list" where
  "bincount x minlength =
     map (\<lambda>j. count_list x j) [0 ..< max minlength (fold (\<lambda>a b. max (Suc a) b) x 0)]"

text \<open>
  Lines 127 to 138: the document frequencies of a CSR matrix (line 131, then the cast of line
  134, which changes no count) and the smoothed inverse document frequencies, which are
  floats whatever the dtype of \<open>X\<close> is (\<open>n_samples / df\<close> is a true division).
\<close>

definition document_frequency :: "'v csr \<Rightarrow> nat list" where
  "document_frequency X = bincount (indices X) (snd (shape X))"

definition idf_weights :: "'v csr \<Rightarrow> real list" where
  "idf_weights X =
     (let n_samples = fst (shape X);
          df = document_frequency X;
          df = map (\<lambda>d. d + 1) df;
          n_samples = n_samples + 1
      in map (\<lambda>d. ln (real n_samples / real d) + 1) df)"

text \<open>
  Lines 140 to 146: the diagonal of \<open>idf_diag\<close>. \<open>sparse.diags\<close> is given
  \<open>dtype=X.dtype\<close>, so for an integer \<open>X\<close> each weight is cast to an integer.
\<close>

definition idf_diagonal :: "matrix \<Rightarrow> real list" where
  "idf_diagonal X =
     (case X of
        Float64 A \<Rightarrow> idf_weights A
      | Int64 A \<Rightarrow> map (\<lambda>w. real_of_int (toward_zero w)) (idf_weights A))"

text \<open>
  The stored rows of a CSR matrix, and the CSR matrix that stores given rows: the values and
  column indices of the rows one after the other, and the running row-start offsets.
\<close>

definition csr_rows :: "'v csr \<Rightarrow> (nat \<times> 'v) list list" where
  "csr_rows X = map (csr_row X) [0 ..< fst (shape X)]"

definition csr_of_rows :: "nat \<Rightarrow> (nat \<times> 'v) list list \<Rightarrow> 'v csr" where
  "csr_of_rows n_cols rows =
     \<lparr>data = concat (map (map snd) rows), indices = concat (map (map fst) rows),
      indptr = map (\<lambda>k. length (concat (take k rows))) [0 ..< length rows + 1],
      shape = (length rows, n_cols)\<rparr>"

text \<open>
  \<open>X * idf_diag\<close> (line 147), SciPy's sparse matrix product with the diagonal matrix of the
  weights: each stored entry is multiplied by the weight of its column, and the product stores
  no entry that is zero. (A row is taken to store at most one entry per column; the order in
  which SciPy stores the entries of a row of a product is not part of the model.)
\<close>

definition scale_row :: "real list \<Rightarrow> (nat \<times> npfloat) list \<Rightarrow> (nat \<times> npfloat) list" where
  "scale_row idf row =
     filter (\<lambda>(j, v). v \<noteq> Fin 0) (map (\<lambda>(j, v). (j, np_mul v (Fin (idf ! j)))) row)"

definition scale_columns :: "npfloat csr \<Rightarrow> real list \<Rightarrow> npfloat csr" where
  "scale_columns X idf = csr_of_rows (snd (shape X)) (map (scale_row idf) (csr_rows X))"

text \<open>\<open>norm(X, axis=1)\<close>: the Euclidean norm of each row.\<close>

definition row_norms :: "npfloat csr \<Rightarrow> npfloat list" where
  "row_norms X = map (\<lambda>row. l2_norm (map snd row)) (csr_rows X)"

text \<open>
  NumPy does not raise on a floating-point error: it returns the IEEE result and emits a
  \<open>RuntimeWarning\<close>, once for the array operation in which the error occurs.
\<close>

datatype np_warning = DivideByZero | InvalidValue

text \<open>
  \<open>(X.T / norms).T\<close> (line 148). SciPy divides a sparse matrix by a dense vector in two
  steps: it takes the reciprocal of every component of the vector (\<open>np.true_divide(1.,
  norms)\<close>, which warns of a division by zero when a component is zero), then multiplies
  each stored entry of row \<open>i\<close> by the reciprocal of component \<open>i\<close> (which warns of an invalid
  value when a product is \<open>0 * inf\<close>). No component is tested for zero.
\<close>

definition reciprocals :: "npfloat list \<Rightarrow> np_warning list \<times> npfloat list" where
  "reciprocals norms =
     (if list_ex (\<lambda>d. d = Fin 0) norms then [DivideByZero] else [], map np_recip norms)"

definition invalid_product :: "npfloat \<Rightarrow> npfloat \<Rightarrow> bool" where
  "invalid_product a b \<longleftrightarrow> a \<noteq> NaN \<and> b \<noteq> NaN \<and> np_mul a b = NaN"

definition multiply_rows :: "npfloat csr \<Rightarrow> npfloat list \<Rightarrow> np_warning list \<times> npfloat csr" where
  "multiply_rows X recip =
     (let pairs = zip (csr_rows X) recip
      in (if list_ex (\<lambda>(row, r). list_ex (\<lambda>(j, v). invalid_product v r) row) pairs
          then [InvalidValue] else [],
          csr_of_rows (snd (shape X))
            (map (\<lambda>(row, r). map (\<lambda>(j, v). (j, np_mul v r)) row) pairs)))"

definition divide_rows :: "npfloat csr \<Rightarrow> npfloat list \<Rightarrow> np_warning list \<times> npfloat csr" where
  "divide_rows X norms =
     (let (w1, recip) = reciprocals norms;
          (w2, Y) = multiply_rows X recip
      in (w1 @ w2, Y))"

text \<open>
  \<open>tfidf_transformer\<close>, lines 124 to 151, on a CSR matrix (the branch of line 131).
  \<open>idf_scaled\<close> is \<open>X_tfidf\<close> after line 147, its values read as floats: for an integer \<open>X\<close>
  they are integers, the products of the counts with the truncated weights. The norms and the
  division of line 148 are in floats; line 149 casts the result back to \<open>X.dtype\<close>. The
  result is paired with the warnings the call emits.
\<close>

definition idf_scaled :: "matrix \<Rightarrow> npfloat csr" where
  "idf_scaled X = scale_columns (float_values X) (idf_diagonal X)"

definition tfidf_transformer :: "matrix \<Rightarrow> np_warning list \<times> matrix" where
  "tfidf_transformer X =
     (let X_tfidf = idf_scaled X;
          (warnings, X_tfidf) = divide_rows X_tfidf (row_norms X_tfidf)
      in (warnings, astype_like X X_tfidf))"

section \<open>Cosine similarity\<close>

text \<open>
  \<open>norm(X)\<close> with no axis (lines 180 and 184) is the Frobenius norm of the whole matrix, a
  scalar; \<open>X / norm(X)\<close> multiplies every stored entry by its reciprocal.
\<close>

definition frobenius_norm :: "npfloat csr \<Rightarrow> npfloat" where
  "frobenius_norm X = l2_norm (data X)"

definition divide_scalar :: "npfloat csr \<Rightarrow> npfloat \<Rightarrow> npfloat csr" where
  "divide_scalar X c = X\<lparr>data := map (\<lambda>v. np_mul v (np_recip c)) (data X)\<rparr>"

text \<open>
  \<open>(A @ B.T).toarray()\<close>: entry \<open>(i, j)\<close> is the sum of the products of the stored entries
  of row \<open>i\<close> of \<open>A\<close> and row \<open>j\<close> of \<open>B\<close> that share a column; it is \<open>0.0\<close> when there is
  none.
\<close>

definition sparse_dot :: "(nat \<times> npfloat) list \<Rightarrow> (nat \<times> npfloat) list \<Rightarrow> npfloat" where
  "sparse_dot r s =
     np_sum (concat (map (\<lambda>(c, v). map (\<lambda>(c', w). np_mul v w) (filter (\<lambda>(c', w). c' = c) s)) r))"

definition matmul_transpose_dense :: "npfloat csr \<Rightarrow> npfloat csr \<Rightarrow> npfloat list list" where
  "matmul_transpose_dense A B =
     map (\<lambda>i. map (\<lambda>j. sparse_dot (csr_row A i) (csr_row B j)) [0 ..< fst (shape B)])
       [0 ..< fst (shape A)]"

text \<open>
  \<open>cosine_similarity\<close>, lines 177 to 191, on CSR matrices with the default
  \<open>dense_output=True\<close>. \<open>Y\<close> omitted is \<open>None\<close>. The matrix product raises \<open>ValueError\<close>
  when the numbers of columns differ.
\<close>

definition cosine_similarity :: "npfloat csr \<Rightarrow> npfloat csr option \<Rightarrow> error + npfloat list list" where
  "cosine_similarity X Y_arg =
     (let Y = (case Y_arg of None \<Rightarrow> X | Some Y \<Rightarrow> Y);
          X_normalized = divide_scalar X (frobenius_norm X);
          Y_normalized = (case Y_arg of None \<Rightarrow> X_normalized
                          | Some Y \<Rightarrow> divide_scalar Y (frobenius_norm Y))
      in if snd (shape X_normalized) \<noteq> snd (shape Y_normalized) then Inl ValueError
         else Inr (matmul_transpose_dense X_normalized Y_normalized))"

text \<open>
  The call of line 243, \<open>cosine_similarity(X)\<close> with \<open>Y\<close> omitted, on a matrix of either
  dtype. For an integer \<open>X\<close> the division by the norm is in floats, and line 186 casts
  \<open>X_normalized\<close>, not \<open>Y_normalized\<close>, back to integers.
\<close>

definition cosine_similarity_self :: "matrix \<Rightarrow> error + npfloat list list" where
  "cosine_similarity_self X =
     (case X of
        Float64 A \<Rightarrow> cosine_similarity A None
      | Int64 A \<Rightarrow>
          (let Y_normalized = divide_scalar (as_float_matrix A) (frobenius_norm (as_float_matrix A));
               X_normalized = float_values (astype_like X Y_normalized)
           in Inr (matmul_transpose_dense X_normalized Y_normalized)))"

section \<open>fit\<close>

definition known_tokenizers :: "pyval set" where
  "known_tokenizers = {PyStr ''raw'', PyStr ''backrefs''}"

text \<open>
  Lines 218 to 240: the local variable \<open>counts_matrix\<close> after the \<open>if\<close>. On the \<open>raw\<close>
  branch it is the vectorized list of the token frequencies of the files' texts, read in
  order (reading a file or counting its tokens may raise). The \<open>else\<close> branch only assigns
  \<open>frequency_func\<close>; the rest of it is commented out, so \<open>counts_matrix\<close> stays unbound
  (\<open>None\<close> here). The first argument is \<open>Path(fname).read_text()\<close>.
\<close>

definition counts_matrix_local ::
  "(string \<Rightarrow> error + string) \<Rightarrow> pyval \<Rightarrow> string list \<Rightarrow> error + (int csr) option" where
  "counts_matrix_local read_text tok file_names =
     (if tok = PyStr ''raw'' then
        (case collect (map (\<lambda>fname. case read_text fname of
                                       Inl e \<Rightarrow> Inl e
                                     | Inr doc \<Rightarrow> token_freqs doc) file_names) of
           Inl e \<Rightarrow> Inl e
         | Inr freqs \<Rightarrow> Inr (Some (dict_vectorizer freqs)))
      else Inr None)"

text \<open>
  The dtype of the matrix built on line 104 from the Python lists: NumPy makes an empty list
  an array of floats, and a list of Python integers an array of \<open>int64\<close>.
\<close>

definition csr_matrix_of_lists :: "int csr \<Rightarrow> matrix" where
  "csr_matrix_of_lists C = (if data C = [] then Float64 (as_float_matrix C) else Int64 C)"

text \<open>
  \<open>fit\<close>, lines 206 to 247. The result is the exception raised, if any, and the object as
  the call leaves it. (Warnings are not exceptions: they do not change what \<open>fit\<close> does.)
\<close>

definition fit ::
  "(string \<Rightarrow> error + string) \<Rightarrow> npfloat recommender \<Rightarrow> string list
     \<Rightarrow> error option \<times> npfloat recommender" where
  "fit read_text self file_names =
     (if tokenizer self \<notin> known_tokenizers then (Some ValueError, self)
      else
        (case as_integral (n_examples self) of
           None \<Rightarrow> (Some ValueError, self)
         | Some n \<Rightarrow>
             if n < 1 then (Some ValueError, self)
             else
               (case counts_matrix_local read_text (tokenizer self) file_names of
                  Inl e \<Rightarrow> (Some e, self)
                | Inr None \<Rightarrow> (Some UnboundLocalError, self)
                | Inr (Some counts_matrix) \<Rightarrow>
                    (case cosine_similarity_self
                            (snd (tfidf_transformer (csr_matrix_of_lists counts_matrix))) of
                       Inl e \<Rightarrow> (Some e, self)
                     | Inr similarity \<Rightarrow>
                         (None, self\<lparr>similarity_matrix' := Some similarity,
                                     file_names' := Some file_names\<rparr>)))))"

section \<open>Matrices of the data model\<close>

text \<open>
  The invariants of a row-compressed matrix: one offset more than rows, the first offset 0,
  offsets non-decreasing, the last offset the number of stored values, one column index per
  stored value, every column index within the shape.
\<close>

definition csr_wf :: "'v csr \<Rightarrow> bool" where
  "csr_wf X \<longleftrightarrow>
     length (indptr X) = fst (shape X) + 1 \<and> indptr X ! 0 = 0 \<and> sorted (indptr X) \<and>
     last (indptr X) = length (data X) \<and> length (indices X) = length (data X) \<and>
     list_all (\<lambda>j. j < snd (shape X)) (indices X)"

text \<open>
  A counts matrix: its stored values are finite and not zero, and the column indices of
  each row are strictly increasing (the rows are filled in vocabulary order).
\<close>

definition finite_nonzero :: "npfloat \<Rightarrow> bool" where
  "finite_nonzero v = (case v of Fin r \<Rightarrow> r \<noteq> 0 | _ \<Rightarrow> False)"

definition counts_matrix :: "npfloat csr \<Rightarrow> bool" where
  "counts_matrix X \<longleftrightarrow>
     csr_wf X \<and>
     list_all (\<lambda>i. sorted_wrt (<) (row_slice X (indices X) i)) [0 ..< fst (shape X)] \<and>
     list_all finite_nonzero (data X)"

text \<open>The entry of the matrix at row \<open>i\<close> and column \<open>j\<close>: zero where nothing is stored.\<close>

definition entry :: "npfloat csr \<Rightarrow> nat \<Rightarrow> nat \<Rightarrow> npfloat" where
  "entry X i j = (case map_of (csr_row X i) j of None \<Rightarrow> Fin 0 | Some v \<Rightarrow> v)"

section \<open>Ranking order\<close>

text \<open>
  The order \<open>predict\<close> ranks by: a pair comes before another when its score is higher, or
  when the scores are equal and its position in the corpus is smaller.
\<close>

definition ranks_before :: "(nat \<times> 's::linorder) \<Rightarrow> (nat \<times> 's) \<Rightarrow> bool" where
  "ranks_before a b \<longleftrightarrow> snd b < snd a \<or> (snd a = snd b \<and> fst a < fst b)"

section \<open>Concrete inputs\<close>

text \<open>
  Two documents with the same text: every cosine similarity is 1. And a corpus of three
  documents, asked for more neighbours than it has.
\<close>

definition two_identical_documents :: "real recommender" where
  "two_identical_documents =
     \<lparr>n_examples = PyInt 1, tokenizer = PyStr ''raw'',
      file_names' = Some [''a.py'', ''b.py''],
      similarity_matrix' = Some [[1, 1], [1, 1]]\<rparr>"

definition three_documents :: "real recommender" where
  "three_documents =
     \<lparr>n_examples = PyInt 5, tokenizer = PyStr ''raw'',
      file_names' = Some [''a.py'', ''b.py'', ''c.py''],
      similarity_matrix' = Some [[1, 1/2, 1/2], [1/2, 1, 0], [1/2, 0, 1]]\<rparr>"

text \<open>
  An object fitted earlier on one file, with the given configuration, and a reader for which
  every file is unreadable.
\<close>

definition fitted_before :: "pyval \<Rightarrow> pyval \<Rightarrow> npfloat recommender" where
  "fitted_before n tok =
     \<lparr>n_examples = n, tokenizer = tok, file_names' = Some [''a.py''],
      similarity_matrix' = Some [[Fin 1]]\<rparr>"

definition no_files :: "string \<Rightarrow> error + string" where
  "no_files fname = Inl OSError"

text \<open>
  The frequency mappings of the three documents \<open>cat dog dog\<close>, \<open>dog bird\<close> and
  \<open>cat cat bird\<close>, and the diagonal matrix with rows \<open>(3, 0)\<close> and \<open>(0, 4)\<close>.
\<close>

definition worked_example :: "string freqs list" where
  "worked_example =
     [[(''cat'', 1), (''dog'', 2)], [(''dog'', 1), (''bird'', 1)], [(''cat'', 2), (''bird'', 1)]]"

definition diagonal_3_4 :: "npfloat csr" where
  "diagonal_3_4 = \<lparr>data = [Fin 3, Fin 4], indices = [0, 1], indptr = [0, 1, 2], shape = (2, 2)\<rparr>"

text \<open>
  The counts matrix of the worked example (rows \<open>(0, 1, 2)\<close>, \<open>(1, 0, 1)\<close> and
  \<open>(1, 2, 0)\<close>), and the counts matrix of two documents over a one-word vocabulary, the
  second document without any token.
\<close>

definition worked_example_counts :: "npfloat csr" where
  "worked_example_counts =
     \<lparr>data = [Fin 1, Fin 2, Fin 1, Fin 1, Fin 1, Fin 2], indices = [1, 2, 0, 2, 0, 1],
      indptr = [0, 2, 4, 6], shape = (3, 3)\<rparr>"


text \<open>
  The counts matrix of the worked example as the integer arrays Python integers give, and a
  matrix whose row 0 stores a zero.
\<close>

definition worked_example_int_counts :: "int csr" where
  "worked_example_int_counts =
     \<lparr>data = [1, 2, 1, 1, 1, 2], indices = [1, 2, 0, 2, 0, 1], indptr = [0, 2, 4, 6],
      shape = (3, 3)\<rparr>"


section \<open>Properties of predict\<close>

lemma insort_key_ranked:
  fixes y :: "nat \<times> 's::linorder"
  assumes "sorted_wrt (\<lambda>a b. ranks_before b a) zs" and "\<forall>z\<in>set zs. fst z < fst y"
  shows "sorted_wrt (\<lambda>a b. ranks_before b a) (insort_key snd y zs)"
  using assms
proof (induction zs)
  case Nil
  then show ?case by simp
next
  case (Cons z zs)
  show ?case
  proof (cases "snd y \<le> snd z")
    case True
    have "\<forall>w\<in>set zs. ranks_before w y"
    proof
      fix w assume w: "w \<in> set zs"
      with Cons.prems(1) have "ranks_before w z" by simp
      with True w Cons.prems(2) show "ranks_before w y"
        by (auto simp: ranks_before_def)
    qed
    moreover have "ranks_before z y"
      using True Cons.prems(2) by (auto simp: ranks_before_def)
    ultimately show ?thesis using True Cons.prems(1) by simp
  next
    case False
    then have "ranks_before y z" by (auto simp: ranks_before_def)
    moreover have "\<forall>w\<in>set zs. ranks_before w z" using Cons.prems(1) by simp
    moreover have "sorted_wrt (\<lambda>a b. ranks_before b a) (insort_key snd y zs)"
      using Cons by simp
    ultimately show ?thesis using False by (auto simp: set_insort_key)
  qed
qed

lemma sort_key_ranked:
  fixes ys :: "(nat \<times> 's::linorder) list"
  assumes "sorted_wrt (\<lambda>a b. fst b < fst a) ys"
  shows "sorted_wrt (\<lambda>a b. ranks_before b a) (sort_key snd ys)"
  using assms
proof (induction ys)
  case Nil
  then show ?case by simp
next
  case (Cons y ys)
  then have "sorted_wrt (\<lambda>a b. ranks_before b a) (sort_key snd ys)" by simp
  moreover have "\<forall>z\<in>set (sort_key snd ys). fst z < fst y" using Cons.prems by simp
  ultimately show ?case by (simp add: insort_key_ranked)
qed

lemma enumerate_positions_ascending: "sorted_wrt (\<lambda>a b. fst a < fst b) (enumerate n xs)"
proof -
  have "sorted_wrt (<) (map fst (enumerate n xs))"
    by simp
  then show ?thesis unfolding sorted_wrt_map .
qed

lemma py_sorted_reverse_ranked:
  "sorted_wrt ranks_before (py_sorted_reverse snd (enumerate n xs))"
proof -
  have "sorted_wrt (\<lambda>a b. fst b < fst a) (rev (enumerate n xs))"
    using enumerate_positions_ascending [of n xs] by (simp add: sorted_wrt_rev)
  then have "sorted_wrt (\<lambda>a b. ranks_before b a) (sort_key snd (rev (enumerate n xs)))"
    by (rule sort_key_ranked)
  then show ?thesis by (simp add: py_sorted_reverse_def sorted_wrt_rev)
qed

lemma mset_py_sorted_reverse: "mset (py_sorted_reverse k xs) = mset xs"
  by (simp add: py_sorted_reverse_def)

lemma length_py_sorted_reverse: "length (py_sorted_reverse k xs) = length xs"
  by (simp add: py_sorted_reverse_def)

lemma list_index_Some_iff: "(\<exists>i. list_index xs x = Some i) \<longleftrightarrow> x \<in> set xs"
  by (induction xs) auto

lemma list_index_less: "list_index xs x = Some i \<Longrightarrow> i < length xs"
  by (induction xs arbitrary: i) (auto split: if_splits)

lemma collect_getitem:
  "\<forall>i\<in>set is. i < length xs \<Longrightarrow> collect (map (py_getitem xs) is) = Inr (map ((!) xs) is)"
  by (induction "is") (auto simp: py_getitem_def)

lemma length_py_slice_from_1:
  assumes "1 \<le> n" and "xs \<noteq> []"
  shows "int (length (py_slice xs 1 (n + 1))) = min n (int (length xs) - 1)"
proof -
  define L where "L = length xs"
  have pos: "1 \<le> L" using assms(2) unfolding L_def by (cases xs) simp_all
  have a: "nat (min 1 (int L)) = 1" using pos by simp
  show ?thesis
  proof (cases "n + 1 \<le> int L")
    case True
    then have b: "min (n + 1) (int L) = n + 1" by simp
    have "length (py_slice xs 1 (n + 1)) = min (L - 1) (nat (n + 1) - 1)"
      using assms(1) a b by (simp add: py_slice_def Let_def L_def [symmetric])
    also have "\<dots> = nat n" using True assms(1) by simp
    finally show ?thesis using True assms(1) by (simp add: L_def)
  next
    case False
    then have b: "min (n + 1) (int L) = int L" by simp
    have "length (py_slice xs 1 (n + 1)) = min (L - 1) (L - 1)"
      using assms(1) a b by (simp add: py_slice_def Let_def L_def [symmetric])
    then show ?thesis using False pos by (simp add: L_def)
  qed
qed

lemma set_py_slice: "set (py_slice xs i j) \<subseteq> set xs"
  unfolding py_slice_def Let_def
  by (meson set_drop_subset set_take_subset subset_trans)

lemma sorted_items_fitted:
  assumes "fitted self names M" and "file_name \<in> set names"
  shows "\<exists>item_id. list_index names file_name = Some item_id \<and> item_id < length names \<and>
           sorted_items self file_name = Inr (py_sorted_reverse snd (enumerate 0 (M ! item_id)))
           \<and> length (M ! item_id) = length names"
proof -
  from assms(2) obtain item_id where i: "list_index names file_name = Some item_id"
    using list_index_Some_iff [of names file_name] by blast
  then have lt: "item_id < length names" by (rule list_index_less)
  with assms(1) have ltM: "item_id < length M" by (simp add: fitted_def)
  with assms(1) have "length (M ! item_id) = length names"
    by (simp add: fitted_def list_all_length)
  moreover have "sorted_items self file_name = Inr (py_sorted_reverse snd (enumerate 0 (M ! item_id)))"
    using assms(1) i ltM by (simp add: sorted_items_def fitted_def py_getitem_def)
  ultimately show ?thesis using i lt by blast
qed

lemma list_index_first:
  "list_index xs x = Some i \<Longrightarrow> xs ! i = x \<and> (\<forall>k < i. xs ! k \<noteq> x)"
proof (induction xs arbitrary: i)
  case Nil
  then show ?case by simp
next
  case (Cons y ys)
  show ?case
  proof (cases "y = x")
    case True
    with Cons.prems show ?thesis by simp
  next
    case False
    with Cons.prems obtain i' where i': "list_index ys x = Some i'" and i: "i = Suc i'"
      by auto
    from Cons.IH [OF i'] have "ys ! i' = x" and "\<forall>k < i'. ys ! k \<noteq> x" by simp_all
    then show ?thesis using False i by (auto simp: nth_Cons split: nat.splits)
  qed
qed

text \<open>
  Claim C6. For a fitted model, a query identifier in the fitted list and an integer
  \<open>n_examples\<close>, \<open>predict\<close> takes the row of the similarity matrix at the first position of
  the query in the list and sorts its (position, score) pairs: the sorted list is a
  rearrangement of the row's pairs in which every pair ranks before every later one, that is,
  its score is higher, or the scores are equal and its position is the smaller one. The
  result of \<open>predict\<close> is the list of the names at the positions of the pairs of the slice
  \<open>[1 : n_examples + 1]\<close> of that sorted list, in its order.
\<close>

theorem predict_orders_by_score_then_position:
  assumes "fitted self names M" and "file_name \<in> set names"
    and "as_integral (n_examples self) = Some n"
  shows "\<exists>item_id items.
           item_id < length names \<and> names ! item_id = file_name \<and>
           (\<forall>k < item_id. names ! k \<noteq> file_name) \<and>
           mset items = mset (enumerate 0 (M ! item_id)) \<and>
           sorted_wrt ranks_before items \<and>
           sorted_items self file_name = Inr items \<and>
           predict self file_name = Inr (map (\<lambda>p. names ! fst p) (py_slice items 1 (n + 1)))"
proof -
  from sorted_items_fitted [OF assms(1,2)] obtain item_id where
    idx: "list_index names file_name = Some item_id" and lt: "item_id < length names"
    and s: "sorted_items self file_name = Inr (py_sorted_reverse snd (enumerate 0 (M ! item_id)))"
    and len: "length (M ! item_id) = length names"
    by blast
  define items where "items = py_sorted_reverse snd (enumerate 0 (M ! item_id))"
  define top where "top = map fst (py_slice items 1 (n + 1))"
  have first: "names ! item_id = file_name" "\<forall>k < item_id. names ! k \<noteq> file_name"
    using list_index_first [OF idx] by simp_all
  have perm: "mset items = mset (enumerate 0 (M ! item_id))"
    by (simp add: items_def mset_py_sorted_reverse)
  have ranked: "sorted_wrt ranks_before items"
    unfolding items_def by (rule py_sorted_reverse_ranked)
  have "set items = set (enumerate 0 (M ! item_id))"
    by (simp add: items_def py_sorted_reverse_def)
  then have "\<forall>p\<in>set items. fst p < length names"
    by (auto simp: in_set_enumerate_eq len)
  then have "\<forall>i\<in>set top. i < length names"
    using set_py_slice [of items 1 "n + 1"] by (auto simp: top_def)
  then have "collect (map (py_getitem names) top) = Inr (map ((!) names) top)"
    by (rule collect_getitem)
  then have "predict self file_name = Inr (map ((!) names) top)"
    using s assms(1,3) by (simp add: predict_def fitted_def items_def top_def)
  then have p: "predict self file_name = Inr (map (\<lambda>p. names ! fst p) (py_slice items 1 (n + 1)))"
    by (simp add: top_def comp_def)
  show ?thesis
    using lt first perm ranked s [folded items_def] p by blast
qed

theorem predict_orders_witness:
  "fitted three_documents [''a.py'', ''b.py'', ''c.py''] [[1, 1/2, 1/2], [1/2, 1, 0], [1/2, 0, 1]] \<and>
   ''b.py'' \<in> set [''a.py'', ''b.py'', ''c.py''] \<and>
   as_integral (n_examples three_documents) = Some 5 \<and>
   (\<exists>item_id items.
           item_id < length [''a.py'', ''b.py'', ''c.py''] \<and>
           [''a.py'', ''b.py'', ''c.py''] ! item_id = ''b.py'' \<and>
           (\<forall>k < item_id. [''a.py'', ''b.py'', ''c.py''] ! k \<noteq> ''b.py'') \<and>
           mset items = mset (enumerate 0 ([[1, 1/2, 1/2], [1/2, 1, 0], [1/2, 0, 1]] ! item_id)) \<and>
           sorted_wrt ranks_before items \<and>
           sorted_items three_documents ''b.py'' = Inr items \<and>
           predict three_documents ''b.py''
             = Inr (map (\<lambda>p. [''a.py'', ''b.py'', ''c.py''] ! fst p) (py_slice items 1 (5 + 1))))"
proof -
  have f: "fitted three_documents [''a.py'', ''b.py'', ''c.py'']
             [[1, 1/2, 1/2], [1/2, 1, 0], [1/2, 0, 1]]"
    by (simp add: fitted_def three_documents_def)
  have m: "''b.py'' \<in> set [''a.py'', ''b.py'', ''c.py'']" by simp
  have n: "as_integral (n_examples three_documents) = Some 5"
    by (simp add: three_documents_def)
  show ?thesis
    by (rule conjI [OF f conjI [OF m conjI [OF n
          predict_orders_by_score_then_position [OF f m n]]]])
qed

text \<open>
  In the corpus of three documents the query \<open>b.py\<close> ranks first in its own row, then
  \<open>a.py\<close>, then \<open>c.py\<close>.
\<close>

lemma predict_three_documents:
  "sorted_items three_documents ''b.py'' = Inr [(1, 1), (0, 1 / 2), (2, 0)]"
  "predict three_documents ''b.py'' = Inr [''a.py'', ''c.py'']"
  by (simp_all add: three_documents_def predict_def sorted_items_def py_getitem_def
      py_sorted_reverse_def py_slice_def)

text \<open>
  Claim C7. \<open>predict\<close> drops the first pair of the sorted list, not the pair of the query.
  With two documents of the same text every score in the row is equal, the tie puts position
  0 first, and the query \<open>b.py\<close> at position 1 is returned as its own recommendation.
\<close>

theorem predict_recommends_query_itself:
  "predict two_identical_documents ''b.py'' = Inr [''b.py'']"
  by (simp add: two_identical_documents_def predict_def sorted_items_def py_getitem_def
      py_sorted_reverse_def py_slice_def)

text \<open>
  Claim C8. For a fitted model, a query identifier in the fitted list and \<open>n_examples\<close> a
  positive integer (which \<open>fit\<close> has checked), \<open>predict\<close> returns a list, and its length is
  the smaller of \<open>n_examples\<close> and the number of documents minus one.
\<close>

theorem predict_result_length:
  assumes "fitted self names M" and "file_name \<in> set names"
    and "as_integral (n_examples self) = Some n" and "1 \<le> n"
  shows "\<exists>recommendations. predict self file_name = Inr recommendations \<and>
           int (length recommendations) = min n (int (length names) - 1)"
proof -
  from sorted_items_fitted [OF assms(1,2)] obtain item_id where
    s: "sorted_items self file_name = Inr (py_sorted_reverse snd (enumerate 0 (M ! item_id)))"
    and len: "length (M ! item_id) = length names"
    by blast
  define items where "items = py_sorted_reverse snd (enumerate 0 (M ! item_id))"
  define top where "top = map fst (py_slice items 1 (n + 1))"
  have names_ne: "names \<noteq> []" using assms(2) by auto
  have len_items: "length items = length names"
    by (simp add: items_def length_py_sorted_reverse len)
  then have items_ne: "items \<noteq> []" using names_ne by auto
  have "set items = set (enumerate 0 (M ! item_id))"
    by (simp add: items_def py_sorted_reverse_def)
  then have "\<forall>p\<in>set items. fst p < length names"
    by (auto simp: in_set_enumerate_eq len)
  then have "\<forall>i\<in>set top. i < length names"
    using set_py_slice [of items 1 "n + 1"] by (auto simp: top_def)
  then have c: "collect (map (py_getitem names) top) = Inr (map ((!) names) top)"
    by (rule collect_getitem)
  have p: "predict self file_name = Inr (map ((!) names) top)"
    using s assms(1,3) c by (simp add: predict_def fitted_def items_def top_def)
  have "int (length (map ((!) names) top)) = min n (int (length names) - 1)"
    using length_py_slice_from_1 [OF assms(4) items_ne] by (simp add: top_def len_items)
  with p show ?thesis by blast
qed

theorem predict_result_length_witness:
  "fitted three_documents [''a.py'', ''b.py'', ''c.py''] [[1, 1/2, 1/2], [1/2, 1, 0], [1/2, 0, 1]] \<and>
   ''a.py'' \<in> set [''a.py'', ''b.py'', ''c.py''] \<and>
   as_integral (n_examples three_documents) = Some 5 \<and> (1::int) \<le> 5 \<and>
   (\<exists>recommendations. predict three_documents ''a.py'' = Inr recommendations \<and>
      int (length recommendations) = min 5 (int (length [''a.py'', ''b.py'', ''c.py'']) - 1))"
proof -
  have f: "fitted three_documents [''a.py'', ''b.py'', ''c.py'']
             [[1, 1/2, 1/2], [1/2, 1, 0], [1/2, 0, 1]]"
    by (simp add: fitted_def three_documents_def)
  have m: "''a.py'' \<in> set [''a.py'', ''b.py'', ''c.py'']" by simp
  have n: "as_integral (n_examples three_documents) = Some 5"
    by (simp add: three_documents_def)
  have p: "(1::int) \<le> 5" by simp
  show ?thesis
    by (rule conjI [OF f conjI [OF m conjI [OF n conjI [OF p predict_result_length [OF f m n p]]]]])
qed

section \<open>Properties of fit\<close>

text \<open>
  Claim C9. When the tokenizer is not one of the known modes, or \<open>n_examples\<close> is not an
  integer that is at least 1, \<open>fit\<close> raises \<open>ValueError\<close> (the spec's InvalidConfiguration)
  and leaves the object as it was, whatever the files are: nothing is read or computed
  first. The instances are \<open>n_examples\<close> 0, -3 and 2.0, and the tokenizer \<open>unknown\<close>, on
  an object fitted earlier.
\<close>

theorem fit_rejects_invalid_configuration:
  assumes "tokenizer self \<notin> known_tokenizers \<or>
           \<not> (\<exists>n. as_integral (n_examples self) = Some n \<and> 1 \<le> n)"
  shows "fit read_text self file_names = (Some ValueError, self)"
proof (cases "tokenizer self \<in> known_tokenizers")
  case False
  then show ?thesis by (simp add: fit_def)
next
  case True
  with assms have "\<not> (\<exists>n. as_integral (n_examples self) = Some n \<and> 1 \<le> n)" by simp
  then show ?thesis using True
    by (cases "as_integral (n_examples self)") (auto simp: fit_def)
qed

theorem fit_rejects_invalid_configuration_witness:
  "fit no_files (fitted_before (PyInt 0) (PyStr ''raw'')) [''b.py'']
     = (Some ValueError, fitted_before (PyInt 0) (PyStr ''raw'')) \<and>
   fit no_files (fitted_before (PyInt (- 3)) (PyStr ''raw'')) [''b.py'']
     = (Some ValueError, fitted_before (PyInt (- 3)) (PyStr ''raw'')) \<and>
   fit no_files (fitted_before (PyFloat 2) (PyStr ''raw'')) [''b.py'']
     = (Some ValueError, fitted_before (PyFloat 2) (PyStr ''raw'')) \<and>
   fit no_files (fitted_before (PyInt 5) (PyStr ''unknown'')) [''b.py'']
     = (Some ValueError, fitted_before (PyInt 5) (PyStr ''unknown''))"
proof -
  have a: "fit no_files (fitted_before (PyInt 0) (PyStr ''raw'')) [''b.py'']
     = (Some ValueError, fitted_before (PyInt 0) (PyStr ''raw''))"
    by (rule fit_rejects_invalid_configuration) (simp add: fitted_before_def)
  have b: "fit no_files (fitted_before (PyInt (- 3)) (PyStr ''raw'')) [''b.py'']
     = (Some ValueError, fitted_before (PyInt (- 3)) (PyStr ''raw''))"
    by (rule fit_rejects_invalid_configuration) (simp add: fitted_before_def)
  have c: "fit no_files (fitted_before (PyFloat 2) (PyStr ''raw'')) [''b.py'']
     = (Some ValueError, fitted_before (PyFloat 2) (PyStr ''raw''))"
    by (rule fit_rejects_invalid_configuration) (simp add: fitted_before_def)
  have d: "fit no_files (fitted_before (PyInt 5) (PyStr ''unknown'')) [''b.py'']
     = (Some ValueError, fitted_before (PyInt 5) (PyStr ''unknown''))"
    by (rule fit_rejects_invalid_configuration)
      (simp add: fitted_before_def known_tokenizers_def)
  show ?thesis by (rule conjI [OF a conjI [OF b conjI [OF c d]]])
qed

text \<open>
  Claim C10. With the tokenizer \<open>backrefs\<close> the tokenizer check passes, and \<open>fit\<close> always
  raises and leaves the object as it was, for every file list: when \<open>n_examples\<close> is valid
  the error is the \<open>UnboundLocalError\<close> of line 242, since no branch has assigned
  \<open>counts_matrix\<close>.
\<close>

theorem fit_backrefs_always_fails:
  assumes "tokenizer self = PyStr ''backrefs''"
  shows "tokenizer self \<in> known_tokenizers \<and>
         (\<exists>e. fit read_text self file_names = (Some e, self)) \<and>
         (\<forall>n. as_integral (n_examples self) = Some n \<and> 1 \<le> n \<longrightarrow>
              fit read_text self file_names = (Some UnboundLocalError, self))"
proof -
  have k: "tokenizer self \<in> known_tokenizers"
    using assms by (simp add: known_tokenizers_def)
  have c: "counts_matrix_local read_text (tokenizer self) file_names = Inr None"
    using assms by (simp add: counts_matrix_local_def)
  have u: "fit read_text self file_names = (Some UnboundLocalError, self)"
    if "as_integral (n_examples self) = Some n" and "1 \<le> n" for n
    using that k c by (simp add: fit_def)
  have "\<exists>e. fit read_text self file_names = (Some e, self)"
  proof (cases "\<exists>n. as_integral (n_examples self) = Some n \<and> 1 \<le> n")
    case True
    then show ?thesis using u by blast
  next
    case False
    then have "fit read_text self file_names = (Some ValueError, self)"
      using k by (cases "as_integral (n_examples self)") (auto simp: fit_def)
    then show ?thesis by blast
  qed
  with k u show ?thesis by blast
qed

theorem fit_backrefs_always_fails_witness:
  "tokenizer (fitted_before (PyInt 5) (PyStr ''backrefs'')) = PyStr ''backrefs'' \<and>
   as_integral (n_examples (fitted_before (PyInt 5) (PyStr ''backrefs''))) = Some 5 \<and>
   fit no_files (fitted_before (PyInt 5) (PyStr ''backrefs'')) [''b.py'']
     = (Some UnboundLocalError, fitted_before (PyInt 5) (PyStr ''backrefs''))"
proof -
  have t: "tokenizer (fitted_before (PyInt 5) (PyStr ''backrefs'')) = PyStr ''backrefs''"
    by (simp add: fitted_before_def)
  have n: "as_integral (n_examples (fitted_before (PyInt 5) (PyStr ''backrefs''))) = Some 5"
    by (simp add: fitted_before_def)
  from fit_backrefs_always_fails [OF t, of no_files "[''b.py'']"] n
  have "fit no_files (fitted_before (PyInt 5) (PyStr ''backrefs'')) [''b.py'']
     = (Some UnboundLocalError, fitted_before (PyInt 5) (PyStr ''backrefs''))"
    by simp
  with t n show ?thesis by simp
qed

text \<open>
  On the \<open>raw\<close> branch \<open>fit\<close> raises for every list with at least one file: reading the
  first file fails, or counting its tokens does (line 60). The object is left as it was.
\<close>

lemma fit_raw_raises_on_files:
  assumes "tokenizer self = PyStr ''raw''" and "as_integral (n_examples self) = Some n"
    and "1 \<le> n"
  shows "\<exists>e. fit read_text self (fname # fnames) = (Some e, self)"
proof -
  have k: "tokenizer self \<in> known_tokenizers" using assms(1) by (simp add: known_tokenizers_def)
  have "\<exists>e. (case read_text fname of Inl e \<Rightarrow> Inl e | Inr doc \<Rightarrow> token_freqs doc) = Inl e"
    by (cases "read_text fname") (simp_all add: token_freqs_def module_globals_def)
  then obtain e where "counts_matrix_local read_text (tokenizer self) (fname # fnames) = Inl e"
    using assms(1) by (auto simp: counts_matrix_local_def)
  then have "fit read_text self (fname # fnames) = (Some e, self)"
    using k assms(2,3) by (simp add: fit_def)
  then show ?thesis by blast
qed

section \<open>Properties of the tokenizer and the vectorizer\<close>

text \<open>
  The counting itself is right: \<open>dict_freqs\<close> on the lower-cased tokens of a text gives each
  token with its number of occurrences.
\<close>

lemma dict_freqs_counts_tokens:
  "dict_freqs (map lower (findall_word [] ''Cat dog, DOG'')) = [(''cat'', 1), (''dog'', 2)]"
  by code_simp

text \<open>
  Claim C3. \<open>token_freqs\<close> does not return a mapping: for every text, the call of the bare
  name \<open>dict_freqs\<close> on line 60 raises \<open>NameError\<close>, since the module binds no such name.
\<close>

theorem token_freqs_raises_NameError: "token_freqs doc = Inl NameError"
  by (simp add: token_freqs_def module_globals_def)

text \<open>
  The loop of lines 97 to 103, run on the rows, builds the three rows of the worked example;
  \<open>dict_vectorizer\<close> runs it on the empty list, and returns a matrix with no row for every
  input.
\<close>

lemma dict_vectorizer_no_rows:
  "dict_vectorizer rows =
     \<lparr>data = [], indices = [], indptr = [0],
      shape = (0, length (sorted_list_of_set (set (concat (map (map fst) rows)))))\<rparr>"
  by (simp add: dict_vectorizer_def)

lemma vectorize_rows_worked_example:
  "vectorize_rows [''bird'', ''cat'', ''dog''] worked_example ([], [], [0])
     = ([1, 2, 1, 1, 1, 2], [1, 2, 0, 2, 0, 1], [0, 2, 4, 6])"
  by (simp add: worked_example_def row_entries_def List.map_filter_simps)

text \<open>
  Claim C1. For the three frequency mappings of the worked example \<open>dict_vectorizer\<close> returns
  a matrix of shape \<open>(0, 3)\<close> with the single offset 0, not the shape \<open>(3, 3)\<close> the claim
  states: the number of rows is not the number of documents.
\<close>

theorem dict_vectorizer_worked_example:
  "dict_vectorizer worked_example = \<lparr>data = [], indices = [], indptr = [0], shape = (0, 3)\<rparr>"
  by (simp add: dict_vectorizer_def worked_example_def sorted_list_of_set_sort_remdups)

section \<open>Properties of the cosine similarity\<close>

lemma sqrt_25: "sqrt 25 = 5"
  using real_sqrt_abs [of 5] by simp

lemma frobenius_norm_diagonal_3_4: "frobenius_norm diagonal_3_4 = Fin 5"
  by (simp add: frobenius_norm_def diagonal_3_4_def l2_norm_def np_sum_def sqrt_25)

text \<open>
  Claim C2. On the matrix with rows \<open>(3, 0)\<close> and \<open>(0, 4)\<close>, \<open>cosine_similarity\<close> divides by
  the Frobenius norm 5 of the whole matrix, not by the norms 3 and 4 of the rows: the diagonal
  entries are \<open>9/25\<close> and \<open>16/25\<close>, where the cosine of a nonzero row with itself is 1.
\<close>

theorem cosine_similarity_diagonal_3_4:
  "cosine_similarity diagonal_3_4 None = Inr [[Fin (9 / 25), Fin 0], [Fin 0, Fin (16 / 25)]]"
proof -
  have X_normalized: "divide_scalar diagonal_3_4 (frobenius_norm diagonal_3_4)
      = \<lparr>data = [Fin (3 / 5), Fin (4 / 5)], indices = [0, 1], indptr = [0, 1, 2], shape = (2, 2)\<rparr>"
    by (simp add: frobenius_norm_diagonal_3_4 divide_scalar_def) (simp add: diagonal_3_4_def)
  show ?thesis
    unfolding cosine_similarity_def Let_def option.case X_normalized
    by (simp add: matmul_transpose_dense_def upt_rec [of 0] upt_rec [of "Suc 0"]
        csr_row_def row_slice_def sparse_dot_def np_sum_def)
qed

section \<open>Properties of TF-IDF\<close>

lemma row_slices_prefix:
  assumes "sorted p" and "k < length p" and "p ! 0 = 0"
  shows "concat (map (\<lambda>i. take (p ! Suc i - p ! i) (drop (p ! i) xs)) [0 ..< k]) = take (p ! k) xs"
  using assms(2)
proof (induction k)
  case 0
  then show ?case using assms(3) by simp
next
  case (Suc k)
  then have le: "p ! k \<le> p ! Suc k"
    using assms(1) by (simp add: sorted_iff_nth_Suc)
  have "concat (map (\<lambda>i. take (p ! Suc i - p ! i) (drop (p ! i) xs)) [0 ..< Suc k])
      = take (p ! k) xs @ take (p ! Suc k - p ! k) (drop (p ! k) xs)"
    using Suc by simp
  also have "\<dots> = take (p ! k + (p ! Suc k - p ! k)) xs"
    by (simp only: take_add)
  finally show ?case using le by simp
qed

lemma concat_row_slices:
  assumes "csr_wf X" and "length xs = length (data X)"
  shows "concat (map (row_slice X xs) [0 ..< fst (shape X)]) = xs"
proof -
  let ?p = "indptr X" and ?n = "fst (shape X)"
  have len: "length ?p = ?n + 1" and z: "?p ! 0 = 0" and s: "sorted ?p"
    and l: "last ?p = length (data X)"
    using assms(1) by (simp_all add: csr_wf_def)
  have "?p \<noteq> []" using len by auto
  then have "last ?p = ?p ! ?n" using len by (simp add: last_conv_nth)
  then have pn: "?p ! ?n = length xs" using l assms(2) by simp
  have "concat (map (\<lambda>i. take (?p ! Suc i - ?p ! i) (drop (?p ! i) xs)) [0 ..< ?n]) = take (?p ! ?n) xs"
    using s z len by (intro row_slices_prefix) simp_all
  then show ?thesis using pn by (simp add: row_slice_def [abs_def])
qed

lemma count_list_concat:
  "count_list (concat xss) j = sum_list (map (\<lambda>xs. count_list xs j) xss)"
  by (induction xss) simp_all

lemma count_list_strictly_sorted:
  fixes xs :: "nat list"
  assumes "sorted_wrt (<) xs"
  shows "count_list xs j = (if j \<in> set xs then 1 else 0)"
  using assms by (induction xs) auto

lemma sum_list_indicator:
  "sum_list (map (\<lambda>i. if P i then 1 else 0) xs) = length (filter P xs)"
  by (induction xs) simp_all

lemma bincount_nth: "j < m \<Longrightarrow> bincount xs m ! j = count_list xs j"
  by (simp add: bincount_def)

lemma length_row_slice:
  "length xs = length ys \<Longrightarrow> length (row_slice X xs i) = length (row_slice X ys i)"
  by (simp add: row_slice_def)

lemma set_row_slice: "set (row_slice X xs i) \<subseteq> set xs"
  unfolding row_slice_def by (meson set_drop_subset set_take_subset subset_trans)

lemma entry_nonzero_iff:
  assumes "counts_matrix X"
  shows "entry X i j \<noteq> Fin 0 \<longleftrightarrow> j \<in> set (row_slice X (indices X) i)"
proof -
  let ?ks = "row_slice X (indices X) i" and ?vs = "row_slice X (data X) i"
  have len: "length ?ks = length ?vs"
    using assms by (intro length_row_slice) (simp add: counts_matrix_def csr_wf_def)
  show ?thesis
  proof (cases "map_of (zip ?ks ?vs) j")
    case None
    then have "j \<notin> set ?ks" using len by (simp add: map_of_zip_is_None)
    with None show ?thesis by (simp add: entry_def csr_row_def)
  next
    case (Some v)
    then have "(j, v) \<in> set (zip ?ks ?vs)" by (rule map_of_SomeD)
    then have j: "j \<in> set ?ks" and "v \<in> set ?vs" by (auto dest: set_zip_leftD set_zip_rightD)
    then have "v \<in> set (data X)" using set_row_slice by fastforce
    then have "finite_nonzero v" using assms by (simp add: counts_matrix_def list_all_iff)
    then have "v \<noteq> Fin 0" by (auto simp: finite_nonzero_def)
    with Some j show ?thesis by (simp add: entry_def csr_row_def)
  qed
qed

lemma document_frequency_counts_rows:
  assumes "counts_matrix X" and "j < snd (shape X)"
  shows "document_frequency X ! j
         = length (filter (\<lambda>i. entry X i j \<noteq> Fin 0) [0 ..< fst (shape X)])"
proof -
  let ?n = "fst (shape X)"
  have wf: "csr_wf X" using assms(1) by (simp add: counts_matrix_def)
  then have len: "length (indices X) = length (data X)" by (simp add: csr_wf_def)
  have rows: "\<forall>i\<in>set [0 ..< ?n]. sorted_wrt (<) (row_slice X (indices X) i)"
    using assms(1) by (simp add: counts_matrix_def list_all_iff)
  have "document_frequency X ! j = count_list (indices X) j"
    using assms(2) by (simp add: document_frequency_def bincount_nth)
  also have "\<dots> = count_list (concat (map (row_slice X (indices X)) [0 ..< ?n])) j"
    using concat_row_slices [OF wf len] by simp
  also have "\<dots> = sum_list (map (\<lambda>i. count_list (row_slice X (indices X) i) j) [0 ..< ?n])"
    by (simp add: count_list_concat comp_def)
  also have "\<dots> = sum_list (map (\<lambda>i. if entry X i j \<noteq> Fin 0 then 1 else 0) [0 ..< ?n])"
  proof (rule arg_cong [where f = sum_list], rule map_cong [OF refl])
    fix i assume "i \<in> set [0 ..< ?n]"
    with rows have "sorted_wrt (<) (row_slice X (indices X) i)" by blast
    then show "count_list (row_slice X (indices X) i) j = (if entry X i j \<noteq> Fin 0 then 1 else 0)"
      using entry_nonzero_iff [OF assms(1), of i j] by (simp add: count_list_strictly_sorted)
  qed
  also have "\<dots> = length (filter (\<lambda>i. entry X i j \<noteq> Fin 0) [0 ..< ?n])"
    by (rule sum_list_indicator)
  finally show ?thesis .
qed

lemma slice_of_concat_map:
  assumes "i < length rows"
  shows "take (length (rows ! i)) (drop (length (concat (take i rows))) (concat (map (map f) rows)))
         = map f (rows ! i)"
proof -
  have "rows = take i rows @ rows ! i # drop (Suc i) rows"
    using assms by (rule id_take_nth_drop)
  then have "concat (map (map f) rows)
      = concat (map (map f) (take i rows)) @ map f (rows ! i) @ concat (map (map f) (drop (Suc i) rows))"
    by (metis concat.simps(2) concat_append list.simps(9) map_append)
  moreover have "length (concat (map (map f) (take i rows))) = length (concat (take i rows))"
    by (simp add: length_concat comp_def)
  ultimately show ?thesis by simp
qed

lemma indptr_of_rows_nth:
  "k \<le> length rows \<Longrightarrow> indptr (csr_of_rows m rows) ! k = length (concat (take k rows))"
  by (simp add: csr_of_rows_def nth_append del: upt_Suc)

lemma csr_row_of_rows:
  assumes "i < length rows"
  shows "csr_row (csr_of_rows m rows) i = rows ! i"
proof -
  let ?X = "csr_of_rows m rows"
  have a: "indptr ?X ! i = length (concat (take i rows))"
    using assms by (simp add: indptr_of_rows_nth)
  have "indptr ?X ! Suc i = length (concat (take (Suc i) rows))"
    using assms by (simp add: indptr_of_rows_nth)
  then have b: "indptr ?X ! Suc i = length (concat (take i rows)) + length (rows ! i)"
    using assms by (simp add: take_Suc_conv_app_nth)
  have sl: "row_slice ?X xs i = take (length (rows ! i)) (drop (length (concat (take i rows))) xs)"
    for xs :: "'b list"
    by (simp add: row_slice_def a b)
  have "row_slice ?X (indices ?X) i = map fst (rows ! i)"
    unfolding sl using slice_of_concat_map [OF assms, of fst]
    by (simp add: csr_of_rows_def)
  moreover have "row_slice ?X (data ?X) i = map snd (rows ! i)"
    unfolding sl using slice_of_concat_map [OF assms, of snd]
    by (simp add: csr_of_rows_def)
  ultimately show ?thesis by (simp add: csr_row_def zip_map_fst_snd)
qed

lemma shape_of_rows: "shape (csr_of_rows m rows) = (length rows, m)"
  by (simp add: csr_of_rows_def)

lemma csr_rows_of_rows: "csr_rows (csr_of_rows m rows) = rows"
proof -
  have "map (csr_row (csr_of_rows m rows)) [0 ..< length rows] = map (\<lambda>i. rows ! i) [0 ..< length rows]"
    by (rule map_cong [OF refl]) (simp add: csr_row_of_rows)
  then show ?thesis by (simp add: csr_rows_def shape_of_rows map_nth)
qed

lemma length_csr_rows: "length (csr_rows X) = fst (shape X)"
  by (simp add: csr_rows_def)

lemma csr_rows_scale_columns:
  "csr_rows (scale_columns A idf) = map (scale_row idf) (csr_rows A)"
  by (simp add: scale_columns_def csr_rows_of_rows)

lemma shape_scale_columns: "shape (scale_columns A idf) = shape A"
  by (simp add: scale_columns_def shape_of_rows csr_rows_def)

lemma csr_rows_nth: "i < fst (shape X) \<Longrightarrow> csr_rows X ! i = csr_row X i"
  by (simp add: csr_rows_def)

lemma csr_row_scale_columns:
  assumes "i < fst (shape A)"
  shows "csr_row (scale_columns A idf) i = scale_row idf (csr_row A i)"
proof -
  have "csr_row (scale_columns A idf) i = csr_rows (scale_columns A idf) ! i"
    using assms by (simp add: csr_rows_nth shape_scale_columns)
  also have "\<dots> = scale_row idf (csr_rows A ! i)"
    using assms by (simp add: csr_rows_scale_columns length_csr_rows)
  finally show ?thesis using assms by (simp add: csr_rows_nth)
qed

lemma map_of_map_values:
  "map_of (map (\<lambda>(c, v). (c, h c v)) ps) j = map_option (h j) (map_of ps j)"
  by (induction ps) auto

lemma map_of_filter_values:
  assumes "distinct (map fst ps)"
  shows "map_of (filter (\<lambda>(c, v). v \<noteq> z) ps) j
         = (case map_of ps j of None \<Rightarrow> None | Some v \<Rightarrow> if v \<noteq> z then Some v else None)"
  using assms
proof (induction ps)
  case Nil
  then show ?case by simp
next
  case (Cons p ps)
  obtain c v where p: "p = (c, v)" by (cases p)
  show ?case
  proof (cases "c = j")
    case True
    then have "j \<notin> fst ` set ps" using Cons.prems p by auto
    then have "j \<notin> fst ` set (filter (\<lambda>(c, v). v \<noteq> z) ps)" by auto
    then have "map_of (filter (\<lambda>(c, v). v \<noteq> z) ps) j = None"
      by (simp add: map_of_eq_None_iff)
    then show ?thesis using True p by simp
  next
    case False
    then show ?thesis using Cons p by simp
  qed
qed

lemma distinct_columns:
  assumes "counts_matrix X" and "i < fst (shape X)"
  shows "distinct (map fst (csr_row X i))"
proof -
  have "sorted_wrt (<) (row_slice X (indices X) i)"
    using assms by (simp add: counts_matrix_def list_all_iff)
  then have "distinct (row_slice X (indices X) i)"
    by (simp add: strict_sorted_iff)
  moreover have "map fst (csr_row X i)
      = take (min (length (row_slice X (indices X) i)) (length (row_slice X (data X) i)))
          (row_slice X (indices X) i)"
    unfolding csr_row_def by (rule map_fst_zip_take)
  ultimately show ?thesis by (simp add: distinct_take)
qed

lemma entry_scale_columns:
  assumes "counts_matrix A" and "i < fst (shape A)"
  shows "entry (scale_columns A idf) i j = np_mul (entry A i j) (Fin (idf ! j))"
proof -
  let ?h = "\<lambda>c v. np_mul v (Fin (idf ! c))"
  let ?ps = "map (\<lambda>(c, v). (c, ?h c v)) (csr_row A i)"
  have eq: "map fst ?ps = map fst (csr_row A i)" by (simp add: comp_def case_prod_unfold)
  have d: "distinct (map fst ?ps)" unfolding eq by (rule distinct_columns [OF assms])
  have "map_of (csr_row (scale_columns A idf) i) j
      = (case map_of ?ps j of None \<Rightarrow> None | Some v \<Rightarrow> if v \<noteq> Fin 0 then Some v else None)"
    using map_of_filter_values [OF d, of "Fin 0" j]
    by (simp add: csr_row_scale_columns [OF assms(2)] scale_row_def)
  then show ?thesis
    by (cases "map_of (csr_row A i) j")
      (simp_all add: entry_def map_of_map_values [where h = ?h])
qed

lemma length_bincount: "m \<le> length (bincount xs m)"
  by (simp add: bincount_def)

lemma idf_weights_nth:
  assumes "j < snd (shape X)"
  shows "idf_weights X ! j
         = ln (real (fst (shape X) + 1) / real (document_frequency X ! j + 1)) + 1"
proof -
  have "j < length (document_frequency X)"
    using assms length_bincount [of "snd (shape X)" "indices X"]
    by (simp add: document_frequency_def)
  then show ?thesis by (simp add: idf_weights_def Let_def)
qed

text \<open>
  On a counts matrix of floats the computation is the one of the specification: the document
  frequency of a column is the number of rows with a nonzero entry in it, its weight is
  \<open>ln((n_samples + 1) / (df[j] + 1)) + 1\<close>, and every entry of the column is multiplied by
  that weight in \<open>X_tfidf\<close> after line 147.
\<close>

lemma tfidf_float_counts_scaled_by_idf:
  assumes "counts_matrix A" and "j < snd (shape A)"
  shows "document_frequency A ! j
           = length (filter (\<lambda>i. entry A i j \<noteq> Fin 0) [0 ..< fst (shape A)]) \<and>
         idf_weights A ! j
           = ln (real (fst (shape A) + 1) /
                 real (length (filter (\<lambda>i. entry A i j \<noteq> Fin 0) [0 ..< fst (shape A)]) + 1)) + 1 \<and>
         (\<forall>i < fst (shape A).
            entry (idf_scaled (Float64 A)) i j = np_mul (entry A i j) (Fin (idf_weights A ! j)))"
proof -
  have df: "document_frequency A ! j
           = length (filter (\<lambda>i. entry A i j \<noteq> Fin 0) [0 ..< fst (shape A)])"
    using assms by (rule document_frequency_counts_rows)
  have idf: "idf_weights A ! j
           = ln (real (fst (shape A) + 1) /
                 real (length (filter (\<lambda>i. entry A i j \<noteq> Fin 0) [0 ..< fst (shape A)]) + 1)) + 1"
    using idf_weights_nth [OF assms(2)] df by simp
  have "idf_scaled (Float64 A) = scale_columns A (idf_weights A)"
    by (simp add: idf_scaled_def float_values_def idf_diagonal_def)
  then show ?thesis using df idf entry_scale_columns [OF assms(1)] by simp
qed

lemma toward_zero_unit: "0 \<le> r \<Longrightarrow> r < 1 \<Longrightarrow> toward_zero r = 0"
  by (simp add: toward_zero_def floor_eq_iff)

lemma toward_zero_idf: "toward_zero (ln (4 / 3) + 1) = 1"
proof -
  have "0 \<le> ln (4 / 3 :: real)" by (rule ln_ge_zero) simp
  moreover have "ln (4 / 3 :: real) \<le> 4 / 3 - 1" by (rule ln_le_minus_one) simp
  ultimately have "1 \<le> ln (4 / 3 :: real) + 1" and "ln (4 / 3 :: real) + 1 < 2" by simp_all
  then show ?thesis by (simp add: toward_zero_def floor_eq_iff)
qed

lemma below_sqrt: "1 / sqrt 5 < 1" "2 / sqrt 5 < 1" "1 / sqrt 2 < 1"
proof -
  have "(2::real) < sqrt 5" by (rule real_less_rsqrt) simp
  then show "1 / sqrt 5 < 1" "2 / sqrt 5 < 1" by simp_all
  have "(1::real) < sqrt 2" by (rule real_less_rsqrt) simp
  then show "1 / sqrt 2 < 1" by simp
qed

lemma document_frequency_worked_example:
  "document_frequency worked_example_int_counts = [2, 2, 2]"
  by code_simp

lemma idf_weights_worked_example:
  "idf_weights worked_example_int_counts = [ln (4 / 3) + 1, ln (4 / 3) + 1, ln (4 / 3) + 1]"
  by (simp add: idf_weights_def document_frequency_worked_example)
    (simp add: worked_example_int_counts_def)

lemma idf_diagonal_worked_example: "idf_diagonal (Int64 worked_example_int_counts) = [1, 1, 1]"
  by (simp add: idf_diagonal_def idf_weights_worked_example toward_zero_idf)

lemma scale_by_ones:
  "scale_columns (as_float_matrix worked_example_int_counts) [1, 1, 1] = worked_example_counts"
  by code_simp

lemma idf_scaled_worked_example:
  "idf_scaled (Int64 worked_example_int_counts) = worked_example_counts"
  by (simp add: idf_scaled_def idf_diagonal_worked_example float_values_def scale_by_ones)

lemma csr_rows_worked_example:
  "csr_rows worked_example_counts
     = [[(1, Fin 1), (2, Fin 2)], [(0, Fin 1), (2, Fin 1)], [(0, Fin 1), (1, Fin 2)]]"
  by code_simp

lemma row_norms_worked_example:
  "row_norms worked_example_counts = [Fin (sqrt 5), Fin (sqrt 2), Fin (sqrt 5)]"
  by (simp add: row_norms_def csr_rows_worked_example l2_norm_def np_sum_def)

lemma divide_rows_worked_example:
  "divide_rows worked_example_counts (row_norms worked_example_counts)
     = ([], csr_of_rows 3
              [[(1, Fin (1 / sqrt 5)), (2, Fin (2 / sqrt 5))],
               [(0, Fin (1 / sqrt 2)), (2, Fin (1 / sqrt 2))],
               [(0, Fin (1 / sqrt 5)), (1, Fin (2 / sqrt 5))]])"
proof -
  have s: "snd (shape worked_example_counts) = 3" by (simp add: worked_example_counts_def)
  show ?thesis
    by (simp add: divide_rows_def reciprocals_def multiply_rows_def row_norms_worked_example
        csr_rows_worked_example invalid_product_def s)
qed

text \<open>
  Claim C4. On the counts matrix of the worked example with the dtype \<open>int64\<close>, the weights
  of line 138 are \<open>ln(4/3) + 1\<close>, about 1.2877, but \<open>idf_diag\<close> is built with the dtype of
  \<open>X\<close> and its diagonal is 1: after line 147 the matrix is unchanged, no column is scaled by
  its weight. Line 149 then casts the normalized rows, all below 1, to integers: the result
  stores only zeros.
\<close>

theorem tfidf_truncates_idf_of_integer_counts:
  "idf_weights worked_example_int_counts = [ln (4 / 3) + 1, ln (4 / 3) + 1, ln (4 / 3) + 1] \<and>
   idf_diagonal (Int64 worked_example_int_counts) = [1, 1, 1] \<and>
   idf_scaled (Int64 worked_example_int_counts) = as_float_matrix worked_example_int_counts \<and>
   tfidf_transformer (Int64 worked_example_int_counts)
     = ([], Int64 \<lparr>data = [0, 0, 0, 0, 0, 0], indices = [1, 2, 0, 2, 0, 1],
                   indptr = [0, 2, 4, 6], shape = (3, 3)\<rparr>)"
proof -
  have same: "as_float_matrix worked_example_int_counts = worked_example_counts"
    by (simp add: as_float_matrix_def worked_example_int_counts_def worked_example_counts_def)
  have cast: "to_int64 (Fin (1 / sqrt 5)) = 0" "to_int64 (Fin (2 / sqrt 5)) = 0"
    "to_int64 (Fin (1 / sqrt 2)) = 0"
    using below_sqrt by (simp_all add: to_int64_def toward_zero_unit)
  have "tfidf_transformer (Int64 worked_example_int_counts)
     = ([], Int64 \<lparr>data = [0, 0, 0, 0, 0, 0], indices = [1, 2, 0, 2, 0, 1],
                   indptr = [0, 2, 4, 6], shape = (3, 3)\<rparr>)"
    unfolding tfidf_transformer_def Let_def idf_scaled_worked_example divide_rows_worked_example
    by (simp add: astype_like_def csr_of_rows_def cast upt_rec [of 0] upt_rec [of "Suc 0"]
        upt_rec [of 2] upt_rec [of 3])
  then show ?thesis
    using idf_weights_worked_example idf_diagonal_worked_example idf_scaled_worked_example same
    by simp
qed
















end
